theory Spec2Isabelle
  imports Main "HOL-Library.Word"
begin

section \<open>Go values used by \<open>op-challenger/fault/service.go\<close>\<close>

text \<open>
  A Go \<open>[]byte\<close> is a list of 8-bit words.  \<open>bytes.Equal\<close> compares length and contents
  and treats a nil slice as the empty one, which is equality of the lists.
\<close>

type_synonym byte = "8 word"
type_synonym bytes = "byte list"

definition bytes_Equal :: "bytes \<Rightarrow> bytes \<Rightarrow> bool" where
  "bytes_Equal a b = (a = b)"

text \<open>
  A Go \<open>error\<close> is an interface value.  Three shapes occur in the file: an error handed
  in by a collaborator (opaque identity \<open>'e\<close> with the text its \<open>Error()\<close> method gives),
  the plain error \<open>fmt.Errorf\<close> builds from a format without \<open>%w\<close>, and the wrapping
  error \<open>fmt.Errorf\<close> builds from a format that ends in \<open>%w\<close>: its text is the formatted
  message and \<open>Unwrap\<close> gives the cause back.  The Go value \<open>nil\<close> of type \<open>error\<close> is
  \<open>None\<close> of \<open>'e error option\<close>.
\<close>

datatype 'e error =
    External 'e string
  | ErrorString string
  | WrapError string "'e error"

fun Error :: "'e error \<Rightarrow> string" where
  "Error (External _ msg) = msg"
| "Error (ErrorString msg) = msg"
| "Error (WrapError msg _) = msg"

fun Unwrap :: "'e error \<Rightarrow> 'e error option" where
  "Unwrap (WrapError _ cause) = Some cause"
| "Unwrap _ = None"

text \<open>
  \<open>fmt.Errorf(format + "%w", err)\<close>, for a format without other verbs, and
  \<open>fmt.Errorf(msg)\<close>.
\<close>

definition Errorf_w :: "string \<Rightarrow> 'e error \<Rightarrow> 'e error" where
  "Errorf_w format err = WrapError (format @ Error err) err"

definition Errorf :: "string \<Rightarrow> 'e error" where
  "Errorf msg = ErrorString msg"

text \<open>
  The collaborators of the file (trace provider, loader, scheduler, monitor, the
  constructors of other packages) act on a world \<open>'w\<close> that the file itself never
  inspects.  Every call the file makes is recorded, in order, together with the error
  the call returned (\<open>None\<close> for a call without an error result).
\<close>

datatype call =
    Call_AbsolutePreState
  | Call_FetchAbsolutePrestateHash
  | Call_Start
  | Call_Close
  | Call_MonitorGames
  | Call_NewMetrics
  | Call_NewSimpleTxManager
  | Call_DialEthClientWithTimeout
  | Call_Info
  | Go_ListenAndServe
  | Go_Serve
  | Call_From
  | Call_StartBalanceMetrics
  | Call_NewDisputeGameFactory
  | Call_NewGameLoader
  | Call_newDiskManager
  | Call_NewScheduler
  | Call_newGameMonitor
  | Call_RecordInfo
  | Call_RecordUp

record ('e, 'w) world =
  calls :: "(call \<times> 'e error option) list"
  env :: 'w

text \<open>
  A call of a Go function with results \<open>(value, error)\<close>, of one whose only result is
  an \<open>error\<close>, of one with a single other result, and of one with no result.  A \<open>go\<close>
  statement only records that the goroutine was started: its body runs beside the
  function that started it and cannot change what that function returns.
\<close>

definition invoke ::
  "call \<Rightarrow> ('w \<Rightarrow> ('r \<times> 'e error option) \<times> 'w) \<Rightarrow> ('e, 'w) world
     \<Rightarrow> ('r \<times> 'e error option) \<times> ('e, 'w) world" where
  "invoke c f s =
     (case f (env s) of
        ((r, err), w') \<Rightarrow> ((r, err), s\<lparr>calls := calls s @ [(c, err)], env := w'\<rparr>))"

definition invoke_error ::
  "call \<Rightarrow> ('w \<Rightarrow> 'e error option \<times> 'w) \<Rightarrow> ('e, 'w) world
     \<Rightarrow> 'e error option \<times> ('e, 'w) world" where
  "invoke_error c f s =
     (case f (env s) of
        (err, w') \<Rightarrow> (err, s\<lparr>calls := calls s @ [(c, err)], env := w'\<rparr>))"


definition invoke0 :: "call \<Rightarrow> ('w \<Rightarrow> 'w) \<Rightarrow> ('e, 'w) world \<Rightarrow> ('e, 'w) world" where
  "invoke0 c f s = s\<lparr>calls := calls s @ [(c, None)], env := f (env s)\<rparr>"


section \<open>\<open>ValidateAbsolutePrestate\<close>\<close>

text \<open>
  \<open>crypto.Keccak256\<close> belongs to go-ethereum and is a parameter of the model: a pure
  function from bytes to bytes, called here with the provider's prestate as its only
  argument.  The two capabilities are the methods \<open>trace.AbsolutePreState\<close> and
  \<open>loader.FetchAbsolutePrestateHash\<close> of two interface values that are not nil; each
  takes the context and yields a Go result pair, and the value of a pair whose error is
  not nil is not looked at.
\<close>

type_synonym ('c, 'e, 'w) bytes_capability =
  "'c \<Rightarrow> 'w \<Rightarrow> (bytes \<times> 'e error option) \<times> 'w"

definition provider_failure :: string where
  "provider_failure = ''failed to get the trace provider's absolute prestate: ''"

definition onchain_failure :: string where
  "onchain_failure = ''failed to get the onchain absolute prestate: ''"

definition prestate_mismatch :: string where
  "prestate_mismatch =
     ''trace provider's absolute prestate does not match onchain absolute prestate''"

definition ValidateAbsolutePrestate ::
  "(bytes \<Rightarrow> bytes) \<Rightarrow> 'c \<Rightarrow> ('c, 'e, 'w) bytes_capability \<Rightarrow> ('c, 'e, 'w) bytes_capability
     \<Rightarrow> ('e, 'w) world \<Rightarrow> 'e error option \<times> ('e, 'w) world" where
  "ValidateAbsolutePrestate Keccak256 ctx trace loader s =
     (case invoke Call_AbsolutePreState (trace ctx) s of
        ((providerPrestate, Some err), s1) \<Rightarrow> (Some (Errorf_w provider_failure err), s1)
      | ((providerPrestate, None), s1) \<Rightarrow>
          (let providerPrestateHash = Keccak256 providerPrestate in
           case invoke Call_FetchAbsolutePrestateHash (loader ctx) s1 of
             ((onchainPrestate, Some err), s2) \<Rightarrow> (Some (Errorf_w onchain_failure err), s2)
           | ((onchainPrestate, None), s2) \<Rightarrow>
               if \<not> bytes_Equal providerPrestateHash onchainPrestate
               then (Some (Errorf prestate_mismatch), s2)
               else (None, s2)))"

section \<open>\<open>NewService\<close> and \<open>MonitorGame\<close>\<close>

text \<open>
  \<open>config.Config\<close> is declared in another package; the record has the fields that
  \<open>NewService\<close> reads, with the types their uses give them (\<open>'a\<close> is
  \<open>common.Address\<close>, \<open>'t\<close> is \<open>txmgr.CLIConfig\<close>).  The pprof and the metrics
  configuration have the same three fields.  \<open>NewService\<close> is given a pointer to the
  configuration and \<open>MonitorGame\<close> a pointer to the service; both are taken to be
  valid, so the model takes the records themselves.
\<close>

record listen_config =
  Enabled :: bool
  ListenAddr :: string
  ListenPort :: int

record ('a, 't) Config =
  TxMgrConfig :: 't
  L1EthRpc :: string
  PprofConfig :: listen_config
  MetricsConfig :: listen_config
  GameFactoryAddress :: 'a
  Datadir :: string
  MaxConcurrency :: nat
  GameWindow :: int
  GameAllowlist :: "'a list"

text \<open>The values of the key-value context of a log line.\<close>

datatype log_value = LogString string | LogInt int

text \<open>
  Every object of another package (logger, metrics, transaction manager, L1 client,
  contract binding, loader, disk manager, scheduler, monitor, player) is a handle \<open>'h\<close>
  into the world.  The record collects the functions and methods of other packages and
  files that \<open>service.go\<close> calls, each with the arguments of its call site.  Those with a
  \<open>(value, error)\<close> result return that pair.
\<close>

record ('a, 'c, 'e, 'h, 't, 'w) collaborators =
  SystemClock :: 'h
  NewMetrics :: "'w \<Rightarrow> 'h \<times> 'w"
  TxMetrics :: "'h \<Rightarrow> 'h"
  NewSimpleTxManager :: "string \<Rightarrow> 'h \<Rightarrow> 'h \<Rightarrow> 't \<Rightarrow> 'w \<Rightarrow> ('h \<times> 'e error option) \<times> 'w"
  DefaultDialTimeout :: int
  DialEthClientWithTimeout :: "int \<Rightarrow> 'h \<Rightarrow> string \<Rightarrow> 'w \<Rightarrow> ('h \<times> 'e error option) \<times> 'w"
  Info :: "'h \<Rightarrow> string \<Rightarrow> (string \<times> log_value) list \<Rightarrow> 'w \<Rightarrow> 'w"
  From :: "'h \<Rightarrow> 'w \<Rightarrow> 'a \<times> 'w"
  StartBalanceMetrics :: "'h \<Rightarrow> 'c \<Rightarrow> 'h \<Rightarrow> 'h \<Rightarrow> 'a \<Rightarrow> 'w \<Rightarrow> 'w"
  NewDisputeGameFactory :: "'a \<Rightarrow> 'h \<Rightarrow> 'w \<Rightarrow> ('h \<times> 'e error option) \<times> 'w"
  NewGameLoader :: "'h \<Rightarrow> 'w \<Rightarrow> 'h \<times> 'w"
  newDiskManager :: "string \<Rightarrow> 'w \<Rightarrow> 'h \<times> 'w"
  NewGamePlayer ::
    "'c \<Rightarrow> 'h \<Rightarrow> ('a, 't) Config \<Rightarrow> string \<Rightarrow> 'a \<Rightarrow> 'h \<Rightarrow> 'h \<Rightarrow> 'w \<Rightarrow> ('h \<times> 'e error option) \<times> 'w"
  NewScheduler ::
    "'h \<Rightarrow> 'h \<Rightarrow> nat \<Rightarrow> ('a \<Rightarrow> string \<Rightarrow> 'w \<Rightarrow> ('h \<times> 'e error option) \<times> 'w) \<Rightarrow> 'w \<Rightarrow> 'h \<times> 'w"
  BlockNumber :: "'h \<Rightarrow> 'c \<Rightarrow> 'w \<Rightarrow> (nat \<times> 'e error option) \<times> 'w"
  newGameMonitor ::
    "'h \<Rightarrow> 'h \<Rightarrow> 'h \<Rightarrow> 'h \<Rightarrow> int \<Rightarrow> ('c \<Rightarrow> 'w \<Rightarrow> (nat \<times> 'e error option) \<times> 'w) \<Rightarrow> 'a list
       \<Rightarrow> 'w \<Rightarrow> 'h \<times> 'w"
  SimpleWithMeta :: string
  RecordInfo :: "'h \<Rightarrow> string \<Rightarrow> 'w \<Rightarrow> 'w"
  RecordUp :: "'h \<Rightarrow> 'w \<Rightarrow> 'w"
  Start :: "'h \<Rightarrow> 'c \<Rightarrow> 'w \<Rightarrow> 'w"
  Close :: "'h \<Rightarrow> 'w \<Rightarrow> 'w"
  MonitorGames :: "'h \<Rightarrow> 'c \<Rightarrow> 'w \<Rightarrow> 'e error option \<times> 'w"

record 'h Service =
  logger :: 'h
  metrics :: 'h
  monitor :: 'h
  sched :: 'h








text \<open>
  A \<open>defer\<close> statement pushes a call; when the function returns, after its result has
  been evaluated, the pushed calls run, the last one first.
\<close>

definition run_deferred ::
  "(('e, 'w) world \<Rightarrow> ('e, 'w) world) list \<Rightarrow> ('e, 'w) world \<Rightarrow> ('e, 'w) world" where
  "run_deferred deferred s = fold (\<lambda>d. d) deferred s"

definition MonitorGame ::
  "('a, 'c, 'e, 'h, 't, 'w) collaborators \<Rightarrow> 'h Service \<Rightarrow> 'c \<Rightarrow> ('e, 'w) world
     \<Rightarrow> 'e error option \<times> ('e, 'w) world" where
  "MonitorGame X s ctx s0 =
     (let s1 = invoke0 Call_Start (Start X (sched s) ctx) s0;
          deferred = [invoke0 Call_Close (Close X (sched s))]
      in case invoke_error Call_MonitorGames (MonitorGames X (monitor s) ctx) s1 of
           (result, s2) \<Rightarrow> (result, run_deferred deferred s2))"

section \<open>Scheduler, disk manager and game monitor\<close>

text \<open>
  \<open>NewService\<close> builds a disk manager, a scheduler and a game monitor and \<open>MonitorGame\<close>
  runs them, but their code is in other files of the repository.  This section models
  them from sections 3 to 5 of the specification: the environment (chain reader, player
  factory, players) acts on a world \<open>'w\<close>, and the scheduler keeps a journal of what it
  did so that the order of its actions can be stated.
\<close>

text \<open>Modelled from the spec: the Game of section 3 (address, creation block or time);
  the game type of the repository is not part of the sources.\<close>

record 'a Game =
  address :: 'a
  created :: int

text \<open>Modelled from the spec: the DiskEntry of section 3 (game address, directory path).\<close>

record 'a DiskEntry =
  entry_address :: 'a
  path :: string

text \<open>Modelled from the spec: the state of the DiskManager of section 4.3, a configured
  data directory and one entry per address.\<close>

record 'a DiskManager =
  datadir :: string
  entries :: "'a DiskEntry list"

text \<open>Modelled from the spec: \<open>DirFor\<close> of section 4.3, which returns the existing directory
  of the address or creates one rooted under the data directory and records the entry.
  The name of the directory of an address is the parameter \<open>name\<close>.\<close>

definition DirFor :: "('a \<Rightarrow> string) \<Rightarrow> 'a \<Rightarrow> 'a DiskManager \<Rightarrow> string \<times> 'a DiskManager" where
  "DirFor name a d =
     (case find (\<lambda>e. entry_address e = a) (entries d) of
        Some e \<Rightarrow> (path e, d)
      | None \<Rightarrow>
          (let p = datadir d @ ''/'' @ name a
           in (p, d\<lparr>entries := entries d @ [\<lparr>entry_address = a, path = p\<rparr>]\<rparr>)))"

text \<open>Modelled from the spec: \<open>Release\<close> of section 4.3, which removes the entry of the
  address and does nothing when there is none.\<close>

definition Release :: "'a \<Rightarrow> 'a DiskManager \<Rightarrow> 'a DiskManager" where
  "Release a d = d\<lparr>entries := filter (\<lambda>e. entry_address e \<noteq> a) (entries d)\<rparr>"

text \<open>Modelled from the spec: the PlayerSlot of section 3 (game address, working directory,
  player handle, last-progress outcome).  The outcome is \<open>None\<close> before the first
  \<open>Progress\<close> call and \<open>Some\<close> of the error that call returned afterwards.\<close>

record ('a, 'e, 'h) PlayerSlot =
  slot_address :: 'a
  directory :: string
  player :: 'h
  last_progress :: "'e error option option"

text \<open>Modelled from the spec: what the Scheduler of section 4.4 does, as journal entries.\<close>

datatype 'a sched_event =
    Scheduled "'a list"
  | Created 'a
  | CreateFailed 'a
  | Progressed 'a
  | Removed 'a

text \<open>Modelled from the spec: the state of the Scheduler of section 4.4, with the bound
  and the player factory it is constructed with, its disk manager and its slots.\<close>

record ('a, 'e, 'h, 'w) Scheduler =
  maxConcurrency :: nat
  disk :: "'a DiskManager"
  createPlayer :: "'a \<Rightarrow> string \<Rightarrow> 'w \<Rightarrow> ('h \<times> 'e error option) \<times> 'w"
  slots :: "('a, 'e, 'h) PlayerSlot list"
  journal :: "'a sched_event list"

text \<open>Modelled from the spec: the scheduler as \<open>NewService\<close> constructs it, from a disk
  manager, \<open>cfg.MaxConcurrency\<close> and the player factory, with no slot yet.\<close>

definition new_Scheduler ::
  "'a DiskManager \<Rightarrow> nat \<Rightarrow> ('a \<Rightarrow> string \<Rightarrow> 'w \<Rightarrow> ('h \<times> 'e error option) \<times> 'w)
     \<Rightarrow> ('a, 'e, 'h, 'w) Scheduler" where
  "new_Scheduler d n create =
     \<lparr>maxConcurrency = n, disk = d, createPlayer = create, slots = [], journal = []\<rparr>"

text \<open>Modelled from the spec: the slot of an address, if there is one.\<close>

definition slot_of :: "'a \<Rightarrow> ('a, 'e, 'h) PlayerSlot list \<Rightarrow> ('a, 'e, 'h) PlayerSlot option" where
  "slot_of a sls = find (\<lambda>sl. slot_address sl = a) sls"

text \<open>Modelled from the spec: the first step of \<open>Schedule\<close> in section 4.4.  For each
  address of the target set without a slot a directory is acquired and a player is
  constructed by the factory; when the construction fails the address is skipped for
  this tick.\<close>

fun create_players ::
  "('a \<Rightarrow> string) \<Rightarrow> 'a list \<Rightarrow> ('a, 'e, 'h, 'w) Scheduler \<times> 'w \<Rightarrow> ('a, 'e, 'h, 'w) Scheduler \<times> 'w"
  where
  "create_players name [] st = st"
| "create_players name (a # as) (sch, w) =
     create_players name as
       (case slot_of a (slots sch) of
          Some sl \<Rightarrow> (sch, w)
        | None \<Rightarrow>
            (case DirFor name a (disk sch) of
               (dir, d) \<Rightarrow>
                 (case createPlayer sch a dir w of
                    ((p, Some err), w1) \<Rightarrow>
                      (sch\<lparr>disk := d, journal := journal sch @ [CreateFailed a]\<rparr>, w1)
                  | ((p, None), w1) \<Rightarrow>
                      (sch\<lparr>disk := d,
                           slots := slots sch
                                     @ [\<lparr>slot_address = a, directory = dir, player = p,
                                         last_progress = None\<rparr>],
                           journal := journal sch @ [Created a]\<rparr>, w1))))"

text \<open>Modelled from the spec: the second step of \<open>Schedule\<close> in section 4.4.  For each
  slot whose address is in the target set the \<open>Progress\<close> step of its player is invoked;
  the outcome is recorded in the slot and the slot stays, whatever the outcome was.\<close>

fun progress_players ::
  "('h \<Rightarrow> 'w \<Rightarrow> 'e error option \<times> 'w) \<Rightarrow> 'a list \<Rightarrow> ('a, 'e, 'h) PlayerSlot list \<Rightarrow> 'w
     \<Rightarrow> ('a, 'e, 'h) PlayerSlot list \<times> 'a sched_event list \<times> 'w" where
  "progress_players progress target [] w = ([], [], w)"
| "progress_players progress target (sl # sls) w =
     (if slot_address sl \<in> set target
      then (case progress (player sl) w of
              (err, w1) \<Rightarrow>
                (case progress_players progress target sls w1 of
                   (sls', evs, w2) \<Rightarrow>
                     (sl\<lparr>last_progress := Some err\<rparr> # sls',
                      Progressed (slot_address sl) # evs, w2)))
      else (case progress_players progress target sls w of
              (sls', evs, w2) \<Rightarrow> (sl # sls', evs, w2)))"

text \<open>Modelled from the spec: \<open>Schedule\<close> of section 4.4.  The games are the full target
  set of the tick.  The three steps run in the order the section lists them: players
  are created, the players of the target set make progress, and each slot whose address
  is absent from the target set is dropped and its directory released.  A slot that is
  about to be dropped makes no progress in the tick (section 5: no \<open>Progress\<close> after a
  slot left the target set), and a player created in a tick makes progress in the same
  tick (section 8: a player created at tick 1 has \<open>Progress\<close> invoked at tick 1).\<close>

definition Schedule ::
  "('a \<Rightarrow> string) \<Rightarrow> ('h \<Rightarrow> 'w \<Rightarrow> 'e error option \<times> 'w) \<Rightarrow> 'a Game list
     \<Rightarrow> ('a, 'e, 'h, 'w) Scheduler \<times> 'w \<Rightarrow> ('a, 'e, 'h, 'w) Scheduler \<times> 'w" where
  "Schedule name progress games st =
     (case st of
        (sch, w) \<Rightarrow>
          (let target = map address games in
           case create_players name target (sch\<lparr>journal := journal sch @ [Scheduled target]\<rparr>, w) of
             (sch1, w1) \<Rightarrow>
               (case progress_players progress target (slots sch1) w1 of
                  (sls, evs, w2) \<Rightarrow>
                    (let gone = filter (\<lambda>sl. slot_address sl \<notin> set target) sls;
                         kept = filter (\<lambda>sl. slot_address sl \<in> set target) sls
                     in (sch1\<lparr>disk := fold Release (map slot_address gone) (disk sch1),
                              slots := kept,
                              journal := journal sch1 @ evs @ map (\<lambda>sl. Removed (slot_address sl)) gone\<rparr>,
                         w2)))))"






text \<open>Modelled from the spec: the configuration of the GameMonitor of section 4.5, as
  \<open>NewService\<close> passes it (\<open>cfg.GameWindow\<close> and \<open>cfg.GameAllowlist\<close>).\<close>

record 'a gameMonitor =
  gameWindow :: int
  allowlist :: "'a list"

text \<open>Modelled from the spec: the filter of section 4.5.  If the allowlist is non-empty,
  every address not in it is dropped.\<close>

definition allowed :: "'a gameMonitor \<Rightarrow> 'a Game list \<Rightarrow> 'a Game list" where
  "allowed mon games =
     (if allowlist mon \<noteq> [] then filter (\<lambda>g. address g \<in> set (allowlist mon)) games
      else games)"

text \<open>Modelled from the spec: one round of the GameMonitor of section 4.5 at a new chain
  head.  The window is computed, the games are fetched (a failed read is left for the
  next head), the result is filtered and handed to \<open>Schedule\<close>.\<close>

definition monitor_tick ::
  "(int \<times> int \<Rightarrow> 'w \<Rightarrow> ('a Game list \<times> 'e error option) \<times> 'w) \<Rightarrow> ('a \<Rightarrow> string)
     \<Rightarrow> ('h \<Rightarrow> 'w \<Rightarrow> 'e error option \<times> 'w) \<Rightarrow> 'a gameMonitor \<Rightarrow> int
     \<Rightarrow> ('a, 'e, 'h, 'w) Scheduler \<times> 'w \<Rightarrow> ('a, 'e, 'h, 'w) Scheduler \<times> 'w" where
  "monitor_tick FetchGames name progress mon head st =
     (case st of
        (sch, w) \<Rightarrow>
          (let window = (head - gameWindow mon, head) in
           case FetchGames window w of
             ((games, Some err), w1) \<Rightarrow> (sch, w1)
           | ((games, None), w1) \<Rightarrow> Schedule name progress (allowed mon games) (sch, w1)))"

text \<open>Modelled from the spec: the monitor loop of section 4.5, over the chain heads that
  arrive before the driving context is cancelled; it then returns \<open>nil\<close>.\<close>

fun monitor_loop ::
  "(int \<times> int \<Rightarrow> 'w \<Rightarrow> ('a Game list \<times> 'e error option) \<times> 'w) \<Rightarrow> ('a \<Rightarrow> string)
     \<Rightarrow> ('h \<Rightarrow> 'w \<Rightarrow> 'e error option \<times> 'w) \<Rightarrow> 'a gameMonitor \<Rightarrow> int list
     \<Rightarrow> ('a, 'e, 'h, 'w) Scheduler \<times> 'w \<Rightarrow> 'e error option \<times> ('a, 'e, 'h, 'w) Scheduler \<times> 'w"
  where
  "monitor_loop FetchGames name progress mon [] st = (None, st)"
| "monitor_loop FetchGames name progress mon (head # heads) st =
     monitor_loop FetchGames name progress mon heads
       (monitor_tick FetchGames name progress mon head st)"

section \<open>Notions used in the statements\<close>

text \<open>
  A scheduler is confined to a set of addresses when every slot it holds, every target
  set it was given and every player it created is within the set.
\<close>

definition confined :: "'a set \<Rightarrow> ('a, 'e, 'h, 'w) Scheduler \<Rightarrow> bool" where
  "confined A sch \<longleftrightarrow>
     slot_address ` set (slots sch) \<subseteq> A
     \<and> (\<forall>target. Scheduled target \<in> set (journal sch) \<longrightarrow> set target \<subseteq> A)
     \<and> (\<forall>a. Created a \<in> set (journal sch) \<longrightarrow> a \<in> A)"


section \<open>A small environment to run the service in\<close>





definition sim_config :: "(string, unit) Config" where
  "sim_config =
     \<lparr>TxMgrConfig = (),
      L1EthRpc = ''http://l1'',
      PprofConfig = \<lparr>Enabled = False, ListenAddr = [], ListenPort = 0\<rparr>,
      MetricsConfig = \<lparr>Enabled = True, ListenAddr = ''0.0.0.0'', ListenPort = 7300\<rparr>,
      GameFactoryAddress = ''0xfa'',
      Datadir = ''/data'',
      MaxConcurrency = 2,
      GameWindow = 100,
      GameAllowlist = []\<rparr>"




section \<open>What \<open>ValidateAbsolutePrestate\<close> returns\<close>

text \<open>The three ways through the function, each with the world it leaves.\<close>

lemma ValidateAbsolutePrestate_provider_error:
  "trace ctx (env s) = ((p, Some err), w1) \<Longrightarrow>
   ValidateAbsolutePrestate Keccak256 ctx trace loader s =
     (Some (Errorf_w provider_failure err),
      s\<lparr>calls := calls s @ [(Call_AbsolutePreState, Some err)], env := w1\<rparr>)"
  by (simp add: ValidateAbsolutePrestate_def invoke_def)

lemma ValidateAbsolutePrestate_onchain_error:
  "trace ctx (env s) = ((p, None), w1) \<Longrightarrow> loader ctx w1 = ((h, Some err), w2) \<Longrightarrow>
   ValidateAbsolutePrestate Keccak256 ctx trace loader s =
     (Some (Errorf_w onchain_failure err),
      s\<lparr>calls := calls s @ [(Call_AbsolutePreState, None), (Call_FetchAbsolutePrestateHash, Some err)],
        env := w2\<rparr>)"
  by (simp add: ValidateAbsolutePrestate_def invoke_def)

lemma ValidateAbsolutePrestate_compared:
  "trace ctx (env s) = ((p, None), w1) \<Longrightarrow> loader ctx w1 = ((h, None), w2) \<Longrightarrow>
   ValidateAbsolutePrestate Keccak256 ctx trace loader s =
     (if Keccak256 p = h then None else Some (Errorf prestate_mismatch),
      s\<lparr>calls := calls s @ [(Call_AbsolutePreState, None), (Call_FetchAbsolutePrestateHash, None)],
        env := w2\<rparr>)"
  by (simp add: ValidateAbsolutePrestate_def invoke_def bytes_Equal_def)

lemma mismatch_text_differs:
  "prestate_mismatch \<noteq> provider_failure @ x" "prestate_mismatch \<noteq> onchain_failure @ x"
  by (simp_all add: prestate_mismatch_def provider_failure_def onchain_failure_def)

text \<open>
  Claim C1.  When the trace provider and the loader both return without an error,
  \<open>ValidateAbsolutePrestate\<close> returns \<open>nil\<close> if and only if the hash of the provider's
  prestate bytes equals the bytes the loader returned, and when they differ it returns
  the mismatch error.  The loader is called in the world the provider call left.
\<close>

theorem ValidateAbsolutePrestate_succeeds_iff_hash_matches:
  assumes "trace ctx (env s) = ((providerPrestate, None), w1)"
      and "loader ctx w1 = ((onchainPrestate, None), w2)"
  shows "(fst (ValidateAbsolutePrestate Keccak256 ctx trace loader s) = None
            \<longleftrightarrow> Keccak256 providerPrestate = onchainPrestate)
       \<and> (Keccak256 providerPrestate \<noteq> onchainPrestate
            \<longrightarrow> fst (ValidateAbsolutePrestate Keccak256 ctx trace loader s)
                  = Some (ErrorString prestate_mismatch))"
  using assms by (simp add: ValidateAbsolutePrestate_compared Errorf_def)

theorem ValidateAbsolutePrestate_succeeds_iff_hash_matches_witness:
  "fst (ValidateAbsolutePrestate rev ()
          (\<lambda>_ w. (([1, 2, 3], None), Suc w)) (\<lambda>_ w. ((if w = 1 then [3, 2, 1] else [], None), w))
          \<lparr>calls = [], env = 0::nat\<rparr>) = (None :: unit error option)
   \<and> fst (ValidateAbsolutePrestate rev ()
          (\<lambda>_ w. (([1, 2, 3], None), Suc w)) (\<lambda>_ w. (([3, 2, 2], None), w))
          \<lparr>calls = [], env = 0::nat\<rparr>) = Some (ErrorString prestate_mismatch :: unit error)"
proof -
  let ?trace = "\<lambda>(_::unit) (w::nat). ((([1, 2, 3]::bytes), None :: unit error option), Suc w)"
  let ?good = "\<lambda>(_::unit) (w::nat). (((if w = 1 then [3, 2, 1] else [])::bytes, None :: unit error option), w)"
  let ?bad = "\<lambda>(_::unit) (w::nat). ((([3, 2, 2]::bytes), None :: unit error option), w)"
  let ?s = "\<lparr>calls = [], env = 0::nat\<rparr> :: (unit, nat) world"
  have "fst (ValidateAbsolutePrestate rev () ?trace ?good ?s) = None"
    using ValidateAbsolutePrestate_succeeds_iff_hash_matches
            [where trace = ?trace and ctx = "()" and s = ?s and providerPrestate = "[1, 2, 3]"
               and ?w1.0 = 1 and loader = ?good and onchainPrestate = "[3, 2, 1]" and ?w2.0 = 1
               and ?Keccak256.0 = rev]
    by simp
  moreover have "fst (ValidateAbsolutePrestate rev () ?trace ?bad ?s)
                   = Some (ErrorString prestate_mismatch)"
    using ValidateAbsolutePrestate_succeeds_iff_hash_matches
            [where trace = ?trace and ctx = "()" and s = ?s and providerPrestate = "[1, 2, 3]"
               and ?w1.0 = 1 and loader = ?bad and onchainPrestate = "[3, 2, 2]" and ?w2.0 = 1
               and ?Keccak256.0 = rev]
    by simp
  ultimately show ?thesis by simp
qed

text \<open>
  Claim C4.  The error returned for a prestate mismatch can be told apart from every
  error returned because the provider's prestate or the on-chain hash could not be
  fetched: the two are different values with different texts, and the mismatch error
  wraps no cause while a fetch failure wraps the error of the failed call.
\<close>

theorem prestate_mismatch_error_is_distinct:
  assumes "trace ctx (env s) = ((p, None), w1)"
      and "loader ctx w1 = ((h, None), w2)"
      and "Keccak256 p \<noteq> h"
      and "fst (ValidateAbsolutePrestate Keccak256' ctx' trace' loader' s') = Some f"
      and "snd (fst (trace' ctx' (env s'))) \<noteq> None
           \<or> snd (fst (loader' ctx' (snd (trace' ctx' (env s'))))) \<noteq> None"
  shows "\<exists>m. fst (ValidateAbsolutePrestate Keccak256 ctx trace loader s) = Some m
             \<and> m \<noteq> f \<and> Error m \<noteq> Error f \<and> Unwrap m = None \<and> Unwrap f \<noteq> None"
proof -
  have m: "fst (ValidateAbsolutePrestate Keccak256 ctx trace loader s)
             = Some (ErrorString prestate_mismatch)"
    using assms(1-3) by (simp add: ValidateAbsolutePrestate_compared Errorf_def)
  obtain p' perr w1' where t: "trace' ctx' (env s') = ((p', perr), w1')"
    by (metis prod.collapse)
  obtain h' lerr w2' where l: "loader' ctx' w1' = ((h', lerr), w2')"
    by (metis prod.collapse)
  have "\<exists>c cause. f = WrapError (c @ Error cause) cause \<and> (c = provider_failure \<or> c = onchain_failure)"
  proof (cases perr)
    case (Some err)
    with t assms(4) show ?thesis
      by (auto simp: ValidateAbsolutePrestate_provider_error Errorf_w_def)
  next
    case None
    with t l assms(5) obtain err where "lerr = Some err" by auto
    with None t l assms(4) show ?thesis
      by (auto simp: ValidateAbsolutePrestate_onchain_error Errorf_w_def)
  qed
  then show ?thesis using m mismatch_text_differs by auto
qed

theorem prestate_mismatch_error_is_distinct_witness:
  "\<exists>m. fst (ValidateAbsolutePrestate rev ()
              (\<lambda>_ w. (([1, 2, 3], None), w)) (\<lambda>_ w. (([9], None), w))
              \<lparr>calls = [], env = ()\<rparr>) = Some m
      \<and> m \<noteq> WrapError (provider_failure @ ''offline'') (External () ''offline'')
      \<and> Error m \<noteq> provider_failure @ ''offline''
      \<and> Unwrap m = None"
proof -
  let ?trace = "\<lambda>(_::unit) (w::unit). ((([1, 2, 3]::bytes), None :: unit error option), w)"
  let ?loader = "\<lambda>(_::unit) (w::unit). ((([9]::bytes), None :: unit error option), w)"
  let ?down = "\<lambda>(_::unit) (w::unit). ((([]::bytes), Some (External () ''offline'')), w)"
  let ?s = "\<lparr>calls = [], env = ()\<rparr> :: (unit, unit) world"
  have run: "fst (ValidateAbsolutePrestate rev () ?down ?loader ?s)
               = Some (WrapError (provider_failure @ ''offline'') (External () ''offline''))"
    by (simp add: ValidateAbsolutePrestate_def invoke_def Errorf_w_def)
  show ?thesis
    using prestate_mismatch_error_is_distinct
            [where trace = ?trace and ctx = "()" and s = ?s and p = "[1, 2, 3]" and ?w1.0 = "()"
               and loader = ?loader and h = "[9]" and ?w2.0 = "()" and ?Keccak256.0 = rev
               and Keccak256' = rev and ctx' = "()" and trace' = ?down and loader' = ?loader
               and s' = ?s, OF _ _ _ run]
    by simp
qed

text \<open>
  Claim C9.  The provider's \<open>AbsolutePreState\<close> is called first.  If it returns an error,
  that error is returned wrapped, the only call made is the provider's and the world is
  the one that call left, whatever the loader is: \<open>FetchAbsolutePrestateHash\<close> is not
  called.  If it returns without an error, the loader's call follows it.
\<close>

theorem ValidateAbsolutePrestate_provider_first:
  "case trace ctx (env s) of
     ((providerPrestate, Some err), w1) \<Rightarrow>
        ValidateAbsolutePrestate Keccak256 ctx trace loader s =
          (Some (WrapError (provider_failure @ Error err) err),
           \<lparr>calls = calls s @ [(Call_AbsolutePreState, Some err)], env = w1\<rparr>)
   | ((providerPrestate, None), w1) \<Rightarrow>
       (case loader ctx w1 of
          ((onchainPrestate, err), w2) \<Rightarrow>
            snd (ValidateAbsolutePrestate Keccak256 ctx trace loader s) =
              \<lparr>calls = calls s @ [(Call_AbsolutePreState, None),
                                  (Call_FetchAbsolutePrestateHash, err)], env = w2\<rparr>)"
  by (auto simp: ValidateAbsolutePrestate_def invoke_def Errorf_w_def Let_def
           split: prod.splits option.splits)

theorem ValidateAbsolutePrestate_provider_first_witness:
  "ValidateAbsolutePrestate rev ()
     (\<lambda>ctx w. (([], Some (External () ''offline'')), Suc w))
     (\<lambda>ctx w. (([7], Some (External () ''unreachable'')), w + 10))
     \<lparr>calls = [], env = 0::nat\<rparr>
   = (Some (WrapError (provider_failure @ ''offline'') (External () ''offline'')),
      \<lparr>calls = [(Call_AbsolutePreState, Some (External () ''offline''))], env = 1\<rparr>)"
  using ValidateAbsolutePrestate_provider_first
          [where trace = "\<lambda>ctx w. (([], Some (External () ''offline'')), Suc w)"
             and ctx = "()" and s = "\<lparr>calls = [], env = 0::nat\<rparr>" and ?Keccak256.0 = rev
             and loader = "\<lambda>ctx w. (([7], Some (External () ''unreachable'')), w + 10)"]
  by simp


section \<open>What \<open>MonitorGame\<close> does\<close>

text \<open>
  Claim C2.  \<open>MonitorGame\<close> starts the scheduler, then runs the monitor loop in the world
  the start left, returns exactly what the loop returned (\<open>nil\<close> or an error), and closes
  the scheduler after the loop, in the world the loop left, whatever the loop returned.
\<close>

theorem MonitorGame_starts_runs_closes:
  "MonitorGame X svc ctx s =
     (case MonitorGames X (monitor svc) ctx (Start X (sched svc) ctx (env s)) of
        (result, w) \<Rightarrow>
          (result,
           \<lparr>calls = calls s @ [(Call_Start, None), (Call_MonitorGames, result), (Call_Close, None)],
            env = Close X (sched svc) w\<rparr>))"
  by (simp add: MonitorGame_def invoke0_def invoke_error_def run_deferred_def
           split: prod.splits)

section \<open>What \<open>NewService\<close> returns\<close>












section \<open>Scheduler, worker pool and monitor\<close>

subsection \<open>The steps of \<open>Schedule\<close>\<close>

lemma slot_of_append:
  "slot_of a (xs @ ys) = (case slot_of a xs of Some sl \<Rightarrow> Some sl | None \<Rightarrow> slot_of a ys)"
  by (induction xs) (auto simp: slot_of_def)

lemma slot_of_Some_address: "slot_of a sls = Some sl \<Longrightarrow> slot_address sl = a \<and> sl \<in> set sls"
  by (induction sls) (auto simp: slot_of_def split: if_splits)

lemma slot_of_filter:
  "P a \<Longrightarrow> slot_of a (filter (\<lambda>sl. P (slot_address sl)) sls) = slot_of a sls"
  by (induction sls) (auto simp: slot_of_def)

lemma progress_players_addresses:
  "map slot_address (fst (progress_players progress target sls w)) = map slot_address sls"
  by (induction sls arbitrary: w) (simp_all add: case_prod_beta)

lemma progress_players_events:
  "fst (snd (progress_players progress target sls w))
     = map Progressed (filter (\<lambda>a. a \<in> set target) (map slot_address sls))"
  by (induction sls arbitrary: w) (simp_all add: case_prod_beta)

lemma progress_players_slot:
  "slot_of a sls = Some sl \<Longrightarrow>
   \<exists>sl'. slot_of a (fst (progress_players progress target sls w)) = Some sl'
        \<and> player sl' = player sl \<and> directory sl' = directory sl
        \<and> (if a \<in> set target then \<exists>outcome. last_progress sl' = Some outcome
            else last_progress sl' = last_progress sl)"
proof (induction sls arbitrary: w)
  case Nil
  then show ?case by (simp add: slot_of_def)
next
  case (Cons x sls)
  show ?case
  proof (cases "slot_address x = a")
    case True
    with Cons.prems have "x = sl" by (simp add: slot_of_def)
    with True show ?thesis by (simp add: slot_of_def case_prod_beta)
  next
    case False
    with Cons.prems have "slot_of a sls = Some sl" by (simp add: slot_of_def)
    from Cons.IH [OF this] False show ?thesis
      by (simp add: slot_of_def case_prod_beta)
  qed
qed

lemma create_players_slots:
  "create_players name target (sch, w) = (sch', w') \<Longrightarrow>
   \<exists>new. slots sch' = slots sch @ new \<and> slot_address ` set new \<subseteq> set target"
proof (induction target arbitrary: sch w)
  case Nil
  then show ?case by simp
next
  case (Cons a as)
  obtain sch1 w1 where step:
    "(case slot_of a (slots sch) of
        Some sl \<Rightarrow> (sch, w)
      | None \<Rightarrow>
          (case DirFor name a (disk sch) of
             (dir, d) \<Rightarrow>
               (case createPlayer sch a dir w of
                  ((p, Some err), w1) \<Rightarrow>
                    (sch\<lparr>disk := d, journal := journal sch @ [CreateFailed a]\<rparr>, w1)
                | ((p, None), w1) \<Rightarrow>
                    (sch\<lparr>disk := d,
                         slots := slots sch
                                   @ [\<lparr>slot_address = a, directory = dir, player = p,
                                       last_progress = None\<rparr>],
                         journal := journal sch @ [Created a]\<rparr>, w1)))) = (sch1, w1)"
    by (cases "slot_of a (slots sch)"; cases "DirFor name a (disk sch)";
        cases "createPlayer sch a (fst (DirFor name a (disk sch))) w";
        cases "snd (fst (createPlayer sch a (fst (DirFor name a (disk sch))) w))") auto
  then have one: "\<exists>new. slots sch1 = slots sch @ new \<and> slot_address ` set new \<subseteq> {a}"
    by (auto split: option.splits prod.splits)
  from Cons.prems step have "create_players name as (sch1, w1) = (sch', w')" by simp
  from Cons.IH [OF this] obtain new2 where
    new2: "slots sch' = slots sch1 @ new2" "slot_address ` set new2 \<subseteq> set as"
    by blast
  from one obtain new1 where
    new1: "slots sch1 = slots sch @ new1" "slot_address ` set new1 \<subseteq> {a}"
    by blast
  show ?case
    using new1 new2 by (intro exI [of _ "new1 @ new2"]) auto
qed

lemma create_players_journal:
  "create_players name target (sch, w) = (sch', w') \<Longrightarrow>
   \<exists>evs. journal sch' = journal sch @ evs
         \<and> set evs \<subseteq> Created ` set target \<union> CreateFailed ` set target"
proof (induction target arbitrary: sch w)
  case Nil
  then show ?case by simp
next
  case (Cons a as)
  obtain sch1 w1 where step:
    "(case slot_of a (slots sch) of
        Some sl \<Rightarrow> (sch, w)
      | None \<Rightarrow>
          (case DirFor name a (disk sch) of
             (dir, d) \<Rightarrow>
               (case createPlayer sch a dir w of
                  ((p, Some err), w1) \<Rightarrow>
                    (sch\<lparr>disk := d, journal := journal sch @ [CreateFailed a]\<rparr>, w1)
                | ((p, None), w1) \<Rightarrow>
                    (sch\<lparr>disk := d,
                         slots := slots sch
                                   @ [\<lparr>slot_address = a, directory = dir, player = p,
                                       last_progress = None\<rparr>],
                         journal := journal sch @ [Created a]\<rparr>, w1)))) = (sch1, w1)"
    by (cases "slot_of a (slots sch)"; cases "DirFor name a (disk sch)";
        cases "createPlayer sch a (fst (DirFor name a (disk sch))) w";
        cases "snd (fst (createPlayer sch a (fst (DirFor name a (disk sch))) w))") auto
  then have "\<exists>evs. journal sch1 = journal sch @ evs \<and> set evs \<subseteq> {Created a, CreateFailed a}"
    by (auto split: option.splits prod.splits)
  then obtain evs1 where
    evs1: "journal sch1 = journal sch @ evs1" "set evs1 \<subseteq> {Created a, CreateFailed a}"
    by blast
  from Cons.prems step have "create_players name as (sch1, w1) = (sch', w')" by simp
  from Cons.IH [OF this] obtain evs2 where
    evs2: "journal sch' = journal sch1 @ evs2"
          "set evs2 \<subseteq> Created ` set as \<union> CreateFailed ` set as"
    by blast
  show ?case
    using evs1 evs2 by (intro exI [of _ "evs1 @ evs2"]) auto
qed

subsection \<open>\<open>Schedule\<close> as a whole\<close>

lemma Schedule_unfold:
  assumes "create_players name (map address games)
             (sch\<lparr>journal := journal sch @ [Scheduled (map address games)]\<rparr>, w) = (sch1, w1)"
      and "progress_players progress (map address games) (slots sch1) w1 = (sls, evs, w2)"
  shows "Schedule name progress games (sch, w) =
           (sch1\<lparr>disk := fold Release
                            (map slot_address
                               (filter (\<lambda>sl. slot_address sl \<notin> address ` set games) sls))
                            (disk sch1),
                 slots := filter (\<lambda>sl. slot_address sl \<in> address ` set games) sls,
                 journal := journal sch1 @ evs
                   @ map (\<lambda>sl. Removed (slot_address sl))
                       (filter (\<lambda>sl. slot_address sl \<notin> address ` set games) sls)\<rparr>,
            w2)"
  using assms by (simp add: Schedule_def Let_def)


lemma Schedule_cases:
  obtains sch1 w1 sls evs w2 where
    "create_players name (map address games)
       (sch\<lparr>journal := journal sch @ [Scheduled (map address games)]\<rparr>, w) = (sch1, w1)"
    "progress_players progress (map address games) (slots sch1) w1 = (sls, evs, w2)"
  by (metis prod.collapse)

lemma Schedule_retains:
  assumes slot: "slot_of a (slots sch) = Some sl"
      and target: "a \<in> address ` set games"
      and tick: "Schedule name progress games (sch, w) = (sch', w')"
  shows "\<exists>sl' outcome. slot_of a (slots sch') = Some sl' \<and> player sl' = player sl
           \<and> directory sl' = directory sl \<and> last_progress sl' = Some outcome"
    and "Progressed a \<in> set (drop (length (journal sch)) (journal sch'))"
proof -
  obtain sch1 w1 sls evs w2 where
    create: "create_players name (map address games)
               (sch\<lparr>journal := journal sch @ [Scheduled (map address games)]\<rparr>, w) = (sch1, w1)"
    and progress: "progress_players progress (map address games) (slots sch1) w1 = (sls, evs, w2)"
    by (rule Schedule_cases)
  note unfold = Schedule_unfold [OF create progress]
  from create_players_slots [OF create] obtain new where
    new: "slots sch1 = slots sch @ new" by auto
  have slot1: "slot_of a (slots sch1) = Some sl"
    using slot new by (simp add: slot_of_append)
  from progress_players_slot [OF slot1, of progress "map address games" w1] target progress
  obtain sl' outcome where
    sl': "slot_of a sls = Some sl'" "player sl' = player sl" "directory sl' = directory sl"
         "last_progress sl' = Some outcome"
    by auto
  have kept: "slot_of a (filter (\<lambda>sl. slot_address sl \<in> address ` set games) sls) = slot_of a sls"
    using target by (rule slot_of_filter [where P = "\<lambda>x. x \<in> address ` set games"])
  have slots': "slots sch' = filter (\<lambda>sl. slot_address sl \<in> address ` set games) sls"
    using tick unfold by auto
  show "\<exists>sl' outcome. slot_of a (slots sch') = Some sl' \<and> player sl' = player sl
           \<and> directory sl' = directory sl \<and> last_progress sl' = Some outcome"
    using sl' kept slots' by auto
  from create_players_journal [OF create] obtain cevs where
    cevs: "journal sch1 = journal sch @ Scheduled (map address games) # cevs" by auto
  have evs: "evs = map Progressed (filter (\<lambda>a. a \<in> set (map address games))
                                      (map slot_address (slots sch1)))"
    using progress_players_events [of progress "map address games" "slots sch1" w1] progress
    by simp
  have "a \<in> slot_address ` set (slots sch1)"
    using slot_of_Some_address [OF slot1] by auto
  then have "Progressed a \<in> set evs"
    using target unfolding evs by auto
  moreover have "journal sch' = journal sch @ Scheduled (map address games) # cevs @ evs
                   @ map (\<lambda>sl. Removed (slot_address sl))
                       (filter (\<lambda>sl. slot_address sl \<notin> address ` set games) sls)"
    using tick unfold cevs by auto
  ultimately show "Progressed a \<in> set (drop (length (journal sch)) (journal sch'))"
    by simp
qed

lemma Schedule_slot_addresses:
  assumes "Schedule name progress games (sch, w) = (sch', w')"
  shows "map slot_address (slots sch')
           = filter (\<lambda>a. a \<in> address ` set games)
               (map slot_address
                  (slots (fst (create_players name (map address games)
                                 (sch\<lparr>journal := journal sch @ [Scheduled (map address games)]\<rparr>,
                                  w)))))"
proof -
  obtain sch1 w1 sls evs w2 where
    create: "create_players name (map address games)
               (sch\<lparr>journal := journal sch @ [Scheduled (map address games)]\<rparr>, w) = (sch1, w1)"
    and progress: "progress_players progress (map address games) (slots sch1) w1 = (sls, evs, w2)"
    by (rule Schedule_cases)
  from assms Schedule_unfold [OF create progress]
  have "slots sch' = filter (\<lambda>sl. slot_address sl \<in> address ` set games) sls" by auto
  then have "map slot_address (slots sch')
               = filter (\<lambda>a. a \<in> address ` set games) (map slot_address sls)"
    by (simp add: filter_map comp_def)
  moreover have "map slot_address sls = map slot_address (slots sch1)"
    using progress_players_addresses [of progress "map address games" "slots sch1" w1] progress
    by simp
  ultimately show ?thesis
    by (simp only: create fst_conv)
qed

lemma Schedule_slots_in_target:
  assumes "Schedule name progress games (sch, w) = (sch', w')"
  shows "slot_address ` set (slots sch') \<subseteq> address ` set games"
proof -
  obtain sch1 w1 sls evs w2 where
    create: "create_players name (map address games)
               (sch\<lparr>journal := journal sch @ [Scheduled (map address games)]\<rparr>, w) = (sch1, w1)"
    and progress: "progress_players progress (map address games) (slots sch1) w1 = (sls, evs, w2)"
    by (rule Schedule_cases)
  from assms Schedule_unfold [OF create progress]
  have "slots sch' = filter (\<lambda>sl. slot_address sl \<in> address ` set games) sls" by auto
  then show ?thesis by auto
qed

lemma Schedule_journal:
  assumes "Schedule name progress games (sch, w) = (sch', w')"
  shows "\<exists>evs. journal sch' = journal sch @ Scheduled (map address games) # evs
           \<and> (\<forall>target. Scheduled target \<notin> set evs)
           \<and> (\<forall>a. Created a \<in> set evs \<longrightarrow> a \<in> address ` set games)"
proof -
  obtain sch1 w1 sls evs w2 where
    create: "create_players name (map address games)
               (sch\<lparr>journal := journal sch @ [Scheduled (map address games)]\<rparr>, w) = (sch1, w1)"
    and progress: "progress_players progress (map address games) (slots sch1) w1 = (sls, evs, w2)"
    by (rule Schedule_cases)
  from create_players_journal [OF create] obtain cevs where
    cevs: "journal sch1 = journal sch @ Scheduled (map address games) # cevs"
          "set cevs \<subseteq> Created ` set (map address games) \<union> CreateFailed ` set (map address games)"
    by auto
  have evs: "evs = map Progressed (filter (\<lambda>a. a \<in> set (map address games))
                                      (map slot_address (slots sch1)))"
    using progress_players_events [of progress "map address games" "slots sch1" w1] progress
    by simp
  let ?removed = "map (\<lambda>sl. Removed (slot_address sl))
                    (filter (\<lambda>sl. slot_address sl \<notin> address ` set games) sls)"
  have j: "journal sch' = journal sch @ Scheduled (map address games) # (cevs @ evs @ ?removed)"
    using assms Schedule_unfold [OF create progress] cevs(1) by auto
  have "\<forall>target. Scheduled target \<notin> set (cevs @ evs @ ?removed)"
    using cevs(2) unfolding evs by auto
  moreover have "\<forall>a. Created a \<in> set (cevs @ evs @ ?removed) \<longrightarrow> a \<in> address ` set games"
    using cevs(2) unfolding evs by auto
  ultimately show ?thesis using j by blast
qed

lemma Schedule_confined:
  assumes "confined A sch"
      and "address ` set games \<subseteq> A"
      and "Schedule name progress games (sch, w) = (sch', w')"
  shows "confined A sch'"
proof -
  from Schedule_journal [OF assms(3)] obtain evs where
    evs: "journal sch' = journal sch @ Scheduled (map address games) # evs"
         "\<forall>target. Scheduled target \<notin> set evs"
         "\<forall>a. Created a \<in> set evs \<longrightarrow> a \<in> address ` set games"
    by blast
  show ?thesis
    unfolding confined_def
  proof (intro conjI allI impI)
    show "slot_address ` set (slots sch') \<subseteq> A"
      using Schedule_slots_in_target [OF assms(3)] assms(2) by blast
  next
    fix target assume "Scheduled target \<in> set (journal sch')"
    then have "Scheduled target \<in> set (journal sch) \<or> target = map address games"
      using evs(1,2) by auto
    then show "set target \<subseteq> A"
      using assms(1,2) by (auto simp: confined_def)
  next
    fix a assume "Created a \<in> set (journal sch')"
    then have "Created a \<in> set (journal sch) \<or> Created a \<in> set evs"
      using evs(1) by auto
    then show "a \<in> A"
      using assms(1,2) evs(3) by (auto simp: confined_def)
  qed
qed

lemma allowed_within:
  "allowlist mon \<noteq> [] \<Longrightarrow> address ` set (allowed mon games) \<subseteq> set (allowlist mon)"
  by (auto simp: allowed_def)

lemma monitor_tick_confined:
  assumes "allowlist mon \<noteq> []"
      and "confined (set (allowlist mon)) sch"
      and "monitor_tick FetchGames name progress mon head (sch, w) = (sch', w')"
  shows "confined (set (allowlist mon)) sch'"
proof -
  obtain games err w1 where fetch:
    "FetchGames (head - gameWindow mon, head) w = ((games, err), w1)"
    by (metis prod.collapse)
  show ?thesis
  proof (cases err)
    case (Some e)
    with fetch assms(3) have "sch' = sch" by (simp add: monitor_tick_def)
    with assms(2) show ?thesis by simp
  next
    case None
    with fetch assms(3) have
      "Schedule name progress (allowed mon games) (sch, w1) = (sch', w')"
      by (simp add: monitor_tick_def)
    from Schedule_confined [OF assms(2) allowed_within [OF assms(1)] this]
    show ?thesis .
  qed
qed

lemma monitor_loop_confined:
  assumes "allowlist mon \<noteq> []"
  shows "confined (set (allowlist mon)) sch \<Longrightarrow>
         monitor_loop FetchGames name progress mon heads (sch, w) = (r, sch', w') \<Longrightarrow>
         confined (set (allowlist mon)) sch'"
proof (induction heads arbitrary: sch w)
  case Nil
  then show ?case by simp
next
  case (Cons head heads)
  obtain sch1 w1 where tick:
    "monitor_tick FetchGames name progress mon head (sch, w) = (sch1, w1)"
    by (metis prod.collapse)
  from monitor_tick_confined [OF assms Cons.prems(1) tick]
  have "confined (set (allowlist mon)) sch1" .
  moreover from Cons.prems(2) tick have
    "monitor_loop FetchGames name progress mon heads (sch1, w1) = (r, sch', w')"
    by simp
  ultimately show ?case by (rule Cons.IH)
qed

text \<open>
  Claim C7.  With a non-empty allowlist, a scheduler constructed as \<open>NewService\<close>
  constructs it and driven by the monitor loop over any chain heads and any chain
  reader is only ever given target sets within the allowlist, only ever creates players
  for addresses of the allowlist, and holds slots for addresses of the allowlist only.
\<close>

theorem allowlist_confines_the_scheduler:
  assumes "GameAllowlist cfg \<noteq> []"
      and "monitor_loop FetchGames name progress
             \<lparr>gameWindow = GameWindow cfg, allowlist = GameAllowlist cfg\<rparr> heads
             (new_Scheduler d (MaxConcurrency cfg) create, w) = (result, sch, w')"
  shows "slot_address ` set (slots sch) \<subseteq> set (GameAllowlist cfg)
       \<and> (\<forall>target. Scheduled target \<in> set (journal sch) \<longrightarrow> set target \<subseteq> set (GameAllowlist cfg))
       \<and> (\<forall>a. Created a \<in> set (journal sch) \<longrightarrow> a \<in> set (GameAllowlist cfg))"
proof -
  let ?mon = "\<lparr>gameWindow = GameWindow cfg, allowlist = GameAllowlist cfg\<rparr>"
  have "confined (set (allowlist ?mon)) (new_Scheduler d (MaxConcurrency cfg) create)"
    by (simp add: confined_def new_Scheduler_def)
  from monitor_loop_confined [of ?mon, OF _ this assms(2)] assms(1)
  have "confined (set (GameAllowlist cfg)) sch" by simp
  then show ?thesis by (simp add: confined_def)
qed

text \<open>
  Claim C8.  A game that has a slot and is in the target set of a tick keeps its slot,
  with the same player and directory, whatever its \<open>Progress\<close> call returned, an
  error included; if it is in the target set of the next tick as well, \<open>Progress\<close> is
  invoked for it again in that tick.  A slot is gone after a tick only if its address
  was absent from the target set, and which slots there are after a tick does not
  depend on what the \<open>Progress\<close> calls of the tick returned.
\<close>

theorem progress_error_keeps_the_slot:
  assumes "slot_of a (slots sch) = Some sl"
      and "Schedule name progress games (sch, w) = (sch1, w1)"
      and "Schedule name progress games' (sch1, w1) = (sch2, w2)"
  shows "(a \<in> address ` set games \<longrightarrow>
            (\<exists>sl1 outcome. slot_of a (slots sch1) = Some sl1 \<and> player sl1 = player sl
                \<and> directory sl1 = directory sl \<and> last_progress sl1 = Some outcome)
            \<and> (a \<in> address ` set games' \<longrightarrow>
                 Progressed a \<in> set (drop (length (journal sch1)) (journal sch2))))
       \<and> (slot_of a (slots sch1) = None \<longrightarrow> a \<notin> address ` set games)
       \<and> (\<forall>progress'. map slot_address (slots (fst (Schedule name progress' games (sch, w))))
                         = map slot_address (slots sch1))"
proof -
  have kept: "\<exists>sl1 outcome. slot_of a (slots sch1) = Some sl1 \<and> player sl1 = player sl
                \<and> directory sl1 = directory sl \<and> last_progress sl1 = Some outcome"
    if "a \<in> address ` set games"
    using Schedule_retains(1) [OF assms(1) that assms(2)] .
  have again: "Progressed a \<in> set (drop (length (journal sch1)) (journal sch2))"
    if "a \<in> address ` set games" "a \<in> address ` set games'"
  proof -
    from kept [OF that(1)] obtain sl1 where "slot_of a (slots sch1) = Some sl1" by blast
    from Schedule_retains(2) [OF this that(2) assms(3)] show ?thesis .
  qed
  have same: "map slot_address (slots (fst (Schedule name progress' games (sch, w))))
                = map slot_address (slots sch1)" for progress'
    using Schedule_slot_addresses [OF assms(2)]
          Schedule_slot_addresses [of name progress' games sch w
             "fst (Schedule name progress' games (sch, w))"
             "snd (Schedule name progress' games (sch, w))"]
    by simp
  show ?thesis using kept again same by auto
qed

subsection \<open>The worker pool\<close>





subsection \<open>Runs of the scheduler, the pool and the monitor\<close>


theorem allowlist_confines_the_scheduler_witness:
  "''0xb2'' \<notin> slot_address ` set (slots (fst (snd
      (monitor_loop
         (\<lambda>window u. (([\<lparr>address = ''0xa1'', created = 150\<rparr>,
                          \<lparr>address = ''0xb2'', created = 160\<rparr>], None :: unit error option), u))
         (\<lambda>a. a) (\<lambda>p u. (None, u))
         \<lparr>gameWindow = GameWindow (sim_config\<lparr>GameAllowlist := [''0xa1'']\<rparr>),
          allowlist = GameAllowlist (sim_config\<lparr>GameAllowlist := [''0xa1'']\<rparr>)\<rparr>
         [200]
         (new_Scheduler \<lparr>datadir = ''/data'', entries = []\<rparr>
            (MaxConcurrency (sim_config\<lparr>GameAllowlist := [''0xa1'']\<rparr>))
            (\<lambda>a dir u. ((100 + length a, None), u)), ())))))
   \<and> map slot_address (slots (fst (snd
      (monitor_loop
         (\<lambda>window u. (([\<lparr>address = ''0xa1'', created = 150\<rparr>,
                          \<lparr>address = ''0xb2'', created = 160\<rparr>], None :: unit error option), u))
         (\<lambda>a. a) (\<lambda>p u. (None, u))
         \<lparr>gameWindow = GameWindow (sim_config\<lparr>GameAllowlist := [''0xa1'']\<rparr>),
          allowlist = GameAllowlist (sim_config\<lparr>GameAllowlist := [''0xa1'']\<rparr>)\<rparr>
         [200]
         (new_Scheduler \<lparr>datadir = ''/data'', entries = []\<rparr>
            (MaxConcurrency (sim_config\<lparr>GameAllowlist := [''0xa1'']\<rparr>))
            (\<lambda>a dir u. ((100 + length a, None), u)), ()))))) = [''0xa1'']"
proof -
  let ?cfg = "sim_config\<lparr>GameAllowlist := [''0xa1'']\<rparr>"
  let ?fetch = "\<lambda>(window :: int \<times> int) (u::unit).
                  (([\<lparr>address = ''0xa1'', created = 150\<rparr>,
                     \<lparr>address = ''0xb2'', created = 160\<rparr>], None :: unit error option), u)"
  let ?create = "\<lambda>(a::string) (dir::string) (u::unit). ((100 + length a, None :: unit error option), u)"
  let ?run = "monitor_loop ?fetch (\<lambda>a. a) (\<lambda>(p::nat) (u::unit). (None, u))
                \<lparr>gameWindow = GameWindow ?cfg, allowlist = GameAllowlist ?cfg\<rparr> [200]
                (new_Scheduler \<lparr>datadir = ''/data'', entries = []\<rparr> (MaxConcurrency ?cfg) ?create, ())"
  have listed: "GameAllowlist ?cfg \<noteq> []" by simp
  have run: "?run = (fst ?run, fst (snd ?run), snd (snd ?run))"
    by (simp only: prod.collapse)
  from allowlist_confines_the_scheduler [OF listed run]
  have "slot_address ` set (slots (fst (snd ?run))) \<subseteq> set (GameAllowlist ?cfg)" by blast
  then have "''0xb2'' \<notin> slot_address ` set (slots (fst (snd ?run)))" by auto
  moreover have "allowed \<lparr>gameWindow = 100, allowlist = [''0xa1'']\<rparr>
                    [\<lparr>address = ''0xa1'', created = 150\<rparr>, \<lparr>address = ''0xb2'', created = 160\<rparr>]
                  = [\<lparr>address = ''0xa1'', created = 150\<rparr>]"
    by (simp add: allowed_def)
  then have "map slot_address (slots (fst (snd ?run))) = [''0xa1'']"
    by (simp add: monitor_tick_def Schedule_def new_Scheduler_def slot_of_def
          DirFor_def Release_def Let_def sim_config_def)
  ultimately show ?thesis by simp
qed

theorem progress_error_keeps_the_slot_witness:
  "(\<exists>sl1. slot_of ''0xa1''
             (slots (fst (Schedule (\<lambda>a. a) (\<lambda>p u. (Some (External () ''rpc timeout''), u))
                            [\<lparr>address = ''0xa1'', created = 150\<rparr>]
                            (\<lparr>maxConcurrency = 2,
                              disk = \<lparr>datadir = ''/data'',
                                      entries = [\<lparr>entry_address = ''0xa1'', path = ''/data/0xa1''\<rparr>]\<rparr>,
                              createPlayer = (\<lambda>a dir u. ((100 + length a, None), u)),
                              slots = [\<lparr>slot_address = ''0xa1'', directory = ''/data/0xa1'',
                                        player = 104, last_progress = None\<rparr>],
                              journal = []\<rparr>, ())))) = Some sl1
          \<and> player sl1 = (104::nat)
          \<and> last_progress sl1 = Some (Some (External () ''rpc timeout'')))
   \<and> Progressed ''0xa1''
       \<in> set (journal (fst (Schedule (\<lambda>a. a) (\<lambda>p u. (Some (External () ''rpc timeout''), u))
                              [\<lparr>address = ''0xa1'', created = 150\<rparr>]
                              (Schedule (\<lambda>a. a) (\<lambda>p u. (Some (External () ''rpc timeout''), u))
                                 [\<lparr>address = ''0xa1'', created = 150\<rparr>]
                                 (\<lparr>maxConcurrency = 2,
                                   disk = \<lparr>datadir = ''/data'',
                                           entries = [\<lparr>entry_address = ''0xa1'',
                                                       path = ''/data/0xa1''\<rparr>]\<rparr>,
                                   createPlayer = (\<lambda>a dir u. ((100 + length a, None), u)),
                                   slots = [\<lparr>slot_address = ''0xa1'', directory = ''/data/0xa1'',
                                             player = 104, last_progress = None\<rparr>],
                                   journal = []\<rparr>, ())))))"
proof -
  let ?progress = "\<lambda>(p::nat) (u::unit). (Some (External () ''rpc timeout''), u)"
  let ?games = "[\<lparr>address = ''0xa1'', created = 150\<rparr>]"
  let ?sl = "\<lparr>slot_address = ''0xa1'', directory = ''/data/0xa1'', player = 104::nat,
              last_progress = None :: unit error option option\<rparr>"
  let ?sch = "\<lparr>maxConcurrency = 2,
               disk = \<lparr>datadir = ''/data'',
                       entries = [\<lparr>entry_address = ''0xa1'', path = ''/data/0xa1''\<rparr>]\<rparr>,
               createPlayer = (\<lambda>(a::string) (dir::string) (u::unit).
                                 ((100 + length a, None :: unit error option), u)),
               slots = [?sl], journal = []\<rparr>"
  let ?tick1 = "Schedule (\<lambda>a. a) ?progress ?games (?sch, ())"
  let ?tick2 = "Schedule (\<lambda>a. a) ?progress ?games ?tick1"
  have slot: "slot_of ''0xa1'' (slots ?sch) = Some ?sl" by (simp add: slot_of_def)
  have t1: "Schedule (\<lambda>a. a) ?progress ?games (?sch, ()) = (fst ?tick1, snd ?tick1)"
    by (simp only: prod.collapse)
  have t2: "Schedule (\<lambda>a. a) ?progress ?games (fst ?tick1, snd ?tick1) = (fst ?tick2, snd ?tick2)"
    by (simp only: prod.collapse)
  have target: "''0xa1'' \<in> address ` set ?games" by simp
  note claim = progress_error_keeps_the_slot [OF slot t1 t2]
  from claim target have
    "Progressed ''0xa1'' \<in> set (drop (length (journal (fst ?tick1))) (journal (fst ?tick2)))"
    by blast
  then have again: "Progressed ''0xa1'' \<in> set (journal (fst ?tick2))"
    by (rule in_set_dropD)
  from claim target obtain sl1 outcome where
    sl1: "slot_of ''0xa1'' (slots (fst ?tick1)) = Some sl1" "player sl1 = player ?sl"
         "last_progress sl1 = Some outcome"
    by blast
  have "slot_of ''0xa1'' (slots (fst ?tick1))
          = Some (?sl\<lparr>last_progress := Some (Some (External () ''rpc timeout''))\<rparr>)"
    by (simp add: Schedule_def slot_of_def Let_def)
  with sl1 have "last_progress sl1 = Some (Some (External () ''rpc timeout''))" by auto
  with sl1 again show ?thesis by auto
qed

section \<open>The prestate check and the startup of the service\<close>

subsection \<open>Runs of the service\<close>






subsection \<open>Where the prestate check is not\<close>








end
